theory Spec2Isabelle
  imports Complex_Main "HOL-Library.Log_Nat"
begin

section \<open>Python values used by the reputation engine\<close>

text \<open>
  Python integers are unbounded and are modelled by \<open>int\<close>; \<open>//\<close> on integers is floor
  division, which is \<open>div\<close> on \<open>int\<close>. The exceptions the analysed functions can raise
  on well-typed records are collected in one datatype.
\<close>

datatype py_error = ZeroDivisionError | OverflowError | ValueError

subsection \<open>Floats: IEEE 754 binary64 with round-to-nearest, ties-to-even\<close>

text \<open>
  A finite Python float is modelled by the rational number it denotes. Every float
  operation of the source is the exact operation followed by rounding to the nearest
  binary64 value (\<open>round_double\<close>): 53 significant bits, ties to the even significand,
  gradual underflow with quantum \<open>2 powi (-1074)\<close>. \<open>binade x\<close> is the exponent \<open>e\<close> with
  \<open>2 powi e \<le> x < 2 powi (e + 1)\<close> for a positive \<open>x\<close>.
\<close>

definition round_half_even :: "rat \<Rightarrow> int" where
  "round_half_even x =
     (let f = \<lfloor>x\<rfloor>; d = x - of_int f
      in if d < 1 / 2 then f
         else if 1 / 2 < d then f + 1
         else if even f then f else f + 1)"

definition binade :: "rat \<Rightarrow> int" where
  "binade x = (if 1 \<le> x then bitlen \<lfloor>x\<rfloor> - 1 else - bitlen (\<lceil>1 / x\<rceil> - 1))"

definition round_double :: "rat \<Rightarrow> rat" where
  "round_double x =
     (if x = 0 then 0
      else let q = max (binade \<bar>x\<bar> - 52) (- 1074)
           in sgn x * of_int (round_half_even (\<bar>x\<bar> / 2 powi q)) * 2 powi q)"

definition is_double :: "rat \<Rightarrow> bool" where
  "is_double x \<longleftrightarrow> round_double x = x \<and> \<bar>x\<bar> < 2 ^ 1024"

text \<open>
  \<open>a / b\<close> on two Python integers: the correctly rounded quotient;
  \<open>ZeroDivisionError\<close> for a zero divisor, \<open>OverflowError\<close> when the rounded quotient
  is beyond the largest finite float.
\<close>

definition int_truediv :: "int \<Rightarrow> int \<Rightarrow> py_error + rat" where
  "int_truediv a b =
     (if b = 0 then Inl ZeroDivisionError
      else let q = round_double (of_int a / of_int b)
           in if 2 ^ 1024 \<le> \<bar>q\<bar> then Inl OverflowError else Inr q)"

text \<open>\<open>int(x)\<close> on a finite float truncates towards zero.\<close>

definition py_int :: "rat \<Rightarrow> int" where
  "py_int x = (if 0 \<le> x then \<lfloor>x\<rfloor> else \<lceil>x\<rceil>)"

subsection \<open>Strings\<close>

text \<open>
  Addresses are ASCII strings (\<open>0x\<close> and hexadecimal digits); \<open>str.lower\<close> is modelled on
  bytes: the letters \<open>A\<close> to \<open>Z\<close> move to \<open>a\<close> to \<open>z\<close>, every other byte stays.
\<close>

definition lower_char :: "char \<Rightarrow> char" where
  "lower_char c =
     (let n = (of_char c :: nat) in if 65 \<le> n \<and> n \<le> 90 then char_of (n + 32) else c)"

definition lower :: "string \<Rightarrow> string" where
  "lower s = map lower_char s"

section \<open>Data model\<close>

text \<open>
  A normal transaction as Etherscan returns it. The source reads \<open>timeStamp\<close> with
  \<open>tx['timeStamp']\<close> and parses it with \<open>int\<close>; the other three keys are read with
  \<open>tx.get\<close>, so each may be absent (\<open>None\<close>).
\<close>

record transaction =
  tx_timeStamp :: int
  tx_to :: "string option"
  tx_isError :: "string option"
  tx_contractAddress :: "string option"

text \<open>
  An ERC-20 transfer event; all four keys are read with \<open>tx[...]\<close>, and \<open>value\<close> is
  parsed with \<open>int\<close>.
\<close>

record token_transfer =
  tt_contractAddress :: string
  tt_from :: string
  tt_to :: string
  tt_value :: int

text \<open>The signals collected in step 1 of \<open>calculate_reputation_score\<close>.\<close>

record signals =
  wallet_age_days :: int
  tornado_interaction :: bool
  failed_tx_count :: int
  failed_tx_rate :: rat
  rug_pull_events :: int
  uniswap_tx_count :: int
  liquidation_count :: int
  vote_count :: int

text \<open>
  One line of \<open>score_log\<close>. Each constructor stands for one f-string template of the
  source and carries the values interpolated into it, in the order they appear.
\<close>

datatype log_item =
    WalletAge int int
  | UniswapSwaps int int
  | SnapshotGovVotes int int
  | AaveLiquidations int int
  | TornadoCashInteraction int
  | FailedTxRate int rat int
  | DetectedRugPulls int int

record score_result =
  score_log :: "log_item list"
  base_score :: int
  final_score :: int

text \<open>
  The label of a line (the text before the parenthesis or colon of its template) and
  the signed number of points it reports: \<open>+\<close> for the lines that start with \<open>[+]\<close>,
  \<open>-\<close> for those that start with \<open>[-]\<close>.
\<close>

fun label :: "log_item \<Rightarrow> string" where
  "label (WalletAge _ _) = ''Wallet Age''"
| "label (UniswapSwaps _ _) = ''Uniswap Swaps''"
| "label (SnapshotGovVotes _ _) = ''Snapshot Gov Votes''"
| "label (AaveLiquidations _ _) = ''Aave Liquidations''"
| "label (TornadoCashInteraction _) = ''Tornado Cash Interaction''"
| "label (FailedTxRate _ _ _) = ''Failed TX Rate''"
| "label (DetectedRugPulls _ _) = ''Detected Rug Pulls''"

fun points :: "log_item \<Rightarrow> int" where
  "points (WalletAge _ p) = p"
| "points (UniswapSwaps _ p) = p"
| "points (SnapshotGovVotes _ p) = p"
| "points (AaveLiquidations _ p) = - p"
| "points (TornadoCashInteraction p) = - p"
| "points (FailedTxRate _ _ p) = - p"
| "points (DetectedRugPulls _ p) = - p"

section \<open>Data analysis functions\<close>

definition TORNADO_CASH_ROUTER :: string where
  "TORNADO_CASH_ROUTER = ''0x722122df12d4e14e13ac3b6895a86e84145b6967''"

text \<open>
  \<open>datetime.fromtimestamp\<close> depends on the time zone of the machine and raises for a
  timestamp outside the platform's range, so it is a parameter, as is the value of
  \<open>datetime.now()\<close>. A naive datetime is a number of microseconds on the local calendar;
  \<open>.days\<close> of a difference is its floor in days.
\<close>

definition microseconds_per_day :: int where
  "microseconds_per_day = 86400000000"

definition get_wallet_age_from_tx_list ::
  "(int \<Rightarrow> py_error + int) \<Rightarrow> int \<Rightarrow> transaction list \<Rightarrow> py_error + int" where
  "get_wallet_age_from_tx_list fromtimestamp now transactions =
     (case transactions of
        [] \<Rightarrow> Inr 0
      | tx # _ \<Rightarrow>
          (case fromtimestamp (tx_timeStamp tx) of
             Inl e \<Rightarrow> Inl e
           | Inr first_tx_date \<Rightarrow> Inr ((now - first_tx_date) div microseconds_per_day)))"

fun check_tornado_interaction_from_tx_list :: "transaction list \<Rightarrow> bool" where
  "check_tornado_interaction_from_tx_list [] = False"
| "check_tornado_interaction_from_tx_list (tx # transactions) =
     (if lower (case tx_to tx of None \<Rightarrow> [] | Some a \<Rightarrow> a) = TORNADO_CASH_ROUTER then True
      else check_tornado_interaction_from_tx_list transactions)"

definition get_failed_tx_rate_from_tx_list ::
  "transaction list \<Rightarrow> py_error + (int \<times> rat)" where
  "get_failed_tx_rate_from_tx_list transactions =
     (if transactions = [] then Inr (0, 0)
      else let total_tx = int (length transactions);
               failed_tx = int (length (filter (\<lambda>tx. tx_isError tx = Some ''1'') transactions))
           in if 0 < total_tx
              then (case int_truediv failed_tx total_tx of
                      Inl e \<Rightarrow> Inl e
                    | Inr q \<Rightarrow> Inr (failed_tx, round_double (q * 100)))
              else Inr (failed_tx, 0))"

text \<open>
  The contracts a wallet deployed: transactions with a non-empty \<open>contractAddress\<close> and
  an absent or empty \<open>to\<close>, lower-cased, in list order (duplicates still present).
\<close>

definition deployed_contracts :: "transaction list \<Rightarrow> string list" where
  "deployed_contracts normal_txs =
     map (\<lambda>tx. lower (the (tx_contractAddress tx)))
       (filter (\<lambda>tx. (case tx_contractAddress tx of None \<Rightarrow> False | Some c \<Rightarrow> c \<noteq> [])
                    \<and> (case tx_to tx of None \<Rightarrow> True | Some a \<Rightarrow> a = []))
          normal_txs)"

text \<open>The inner loop of \<open>detect_rug_pulls\<close>: the pair \<open>(total_in, total_out)\<close>.\<close>

fun totals :: "string \<Rightarrow> string \<Rightarrow> token_transfer list \<Rightarrow> int \<times> int \<Rightarrow> int \<times> int" where
  "totals wallet_address_lower contract [] acc = acc"
| "totals wallet_address_lower contract (tx # token_txs) (total_in, total_out) =
     totals wallet_address_lower contract token_txs
       (if lower (tt_contractAddress tx) = contract
        then (if lower (tt_to tx) = wallet_address_lower then total_in + tt_value tx
              else total_in,
              if lower (tt_from tx) = wallet_address_lower then total_out + tt_value tx
              else total_out)
        else (total_in, total_out))"

text \<open>The test at the end of the loop body: \<open>total_in > 0 and total_out / total_in > 0.90\<close>.\<close>

definition flagged :: "int \<Rightarrow> int \<Rightarrow> py_error + bool" where
  "flagged total_in total_out =
     (if 0 < total_in
      then (case int_truediv total_out total_in of
              Inl e \<Rightarrow> Inl e
            | Inr ratio \<Rightarrow> Inr (round_double (9 / 10) < ratio))
      else Inr False)"

text \<open>The outer loop over the contracts, in the order the set is iterated.\<close>

fun count_rug_pulls ::
  "string \<Rightarrow> token_transfer list \<Rightarrow> string list \<Rightarrow> int \<Rightarrow> py_error + int" where
  "count_rug_pulls wallet_address_lower token_txs [] rug_pull_count = Inr rug_pull_count"
| "count_rug_pulls wallet_address_lower token_txs (contract # contracts) rug_pull_count =
     (case totals wallet_address_lower contract token_txs (0, 0) of
        (total_in, total_out) \<Rightarrow>
          (case flagged total_in total_out of
             Inl e \<Rightarrow> Inl e
           | Inr True \<Rightarrow>
               count_rug_pulls wallet_address_lower token_txs contracts (rug_pull_count + 1)
           | Inr False \<Rightarrow>
               count_rug_pulls wallet_address_lower token_txs contracts rug_pull_count))"

text \<open>
  \<open>deployed_contracts\<close> is a Python set, whose iteration order is not fixed by the
  language: \<open>iter\<close> gives the order in which the distinct contracts are visited.
\<close>

definition detect_rug_pulls ::
  "(string list \<Rightarrow> string list) \<Rightarrow> string \<Rightarrow> transaction list \<Rightarrow> token_transfer list
     \<Rightarrow> py_error + int" where
  "detect_rug_pulls iter wallet_address normal_txs token_txs =
     (if normal_txs = [] \<or> token_txs = [] then Inr 0
      else if deployed_contracts normal_txs = [] then Inr 0
      else count_rug_pulls (lower wallet_address) token_txs
             (iter (remdups (deployed_contracts normal_txs))) 0)"

definition set_order :: "(string list \<Rightarrow> string list) \<Rightarrow> bool" where
  "set_order iter \<longleftrightarrow> (\<forall>xs. distinct xs \<longrightarrow> distinct (iter xs) \<and> set (iter xs) = set xs)"

section \<open>Scoring\<close>

text \<open>Step 2 of \<open>calculate_reputation_score\<close>, statement by statement.\<close>

definition scoring_logic :: "signals \<Rightarrow> score_result" where
  "scoring_logic s =
     (let base_score = 50;
          score_log = [];
          age_score = min 20 (wallet_age_days s div 30);
          base_score = base_score + age_score;
          score_log = score_log @ [WalletAge (wallet_age_days s) age_score];
          uniswap_score = min 20 (uniswap_tx_count s div 10);
          base_score = base_score + uniswap_score;
          score_log = score_log @ [UniswapSwaps (uniswap_tx_count s) uniswap_score];
          vote_score = min 15 (vote_count s * 2);
          base_score = base_score + vote_score;
          score_log = score_log @ [SnapshotGovVotes (vote_count s) vote_score];
          liquidation_penalty = liquidation_count s * 20;
          base_score = base_score - liquidation_penalty;
          score_log = score_log @ [AaveLiquidations (liquidation_count s) liquidation_penalty];
          tornado_penalty = 40;
          base_score = (if tornado_interaction s then base_score - tornado_penalty
                        else base_score);
          score_log = (if tornado_interaction s
                       then score_log @ [TornadoCashInteraction tornado_penalty]
                       else score_log);
          failed_tx_penalty =
            (if 20 < failed_tx_rate s then py_int (round_double (failed_tx_rate s / 10)) * 5
             else 0);
          base_score = (if 20 < failed_tx_rate s then base_score - failed_tx_penalty
                        else base_score);
          score_log = score_log @
            [FailedTxRate (failed_tx_count s) (failed_tx_rate s) failed_tx_penalty];
          rug_pull_penalty = rug_pull_events s * 50;
          base_score = base_score - rug_pull_penalty;
          score_log = score_log @ [DetectedRugPulls (rug_pull_events s) rug_pull_penalty]
      in \<lparr>score_log = score_log, base_score = base_score,
          final_score = max 0 (min 100 base_score)\<rparr>)"

text \<open>
  The whole of \<open>calculate_reputation_score\<close>: the two transaction lists and the three
  counts of the graph queries are its inputs, with the clock and the set order.
\<close>

definition calculate_reputation_score ::
  "(string list \<Rightarrow> string list) \<Rightarrow> (int \<Rightarrow> py_error + int) \<Rightarrow> int \<Rightarrow> string
     \<Rightarrow> transaction list \<Rightarrow> token_transfer list \<Rightarrow> int \<Rightarrow> int \<Rightarrow> int
     \<Rightarrow> py_error + score_result" where
  "calculate_reputation_score iter fromtimestamp now wallet_address all_tx all_token_tx
       swaps liquidations votes =
     (case get_wallet_age_from_tx_list fromtimestamp now all_tx of
        Inl e \<Rightarrow> Inl e
      | Inr age \<Rightarrow>
     (case get_failed_tx_rate_from_tx_list all_tx of
        Inl e \<Rightarrow> Inl e
      | Inr (failed, rate) \<Rightarrow>
     (case detect_rug_pulls iter wallet_address all_tx all_token_tx of
        Inl e \<Rightarrow> Inl e
      | Inr rugs \<Rightarrow>
          Inr (scoring_logic
                \<lparr>wallet_age_days = age,
                 tornado_interaction = check_tornado_interaction_from_tx_list all_tx,
                 failed_tx_count = failed, failed_tx_rate = rate, rug_pull_events = rugs,
                 uniswap_tx_count = swaps, liquidation_count = liquidations,
                 vote_count = votes\<rparr>))))"

section \<open>Properties of the rounding\<close>

lemma powi_less_cancel: "(2::rat) powi a < 2 powi b \<Longrightarrow> a < b"
proof (rule ccontr)
  assume lt: "(2::rat) powi a < 2 powi b" and "\<not> a < b"
  then have "b \<le> a" by simp
  then have "(2::rat) powi b \<le> 2 powi a" by (intro power_int_increasing) auto
  with lt show False by simp
qed

lemma binade_bounds:
  assumes "0 < x"
  shows "2 powi binade x \<le> x" and "x < 2 powi (binade x + 1)"
proof -
  show "2 powi binade x \<le> x"
  proof (cases "1 \<le> x")
    case True
    define n where "n = \<lfloor>x\<rfloor>"
    have n: "1 \<le> n" using True by (simp add: n_def le_floor_iff)
    then have b: "1 \<le> bitlen n" by (simp add: bitlen_alt_def)
    from bitlen_bounds[of n] n have "2 ^ nat (bitlen n - 1) \<le> n" by simp
    then have "rat_of_int (2 ^ nat (bitlen n - 1)) \<le> of_int n" by (rule of_int_le_iff[THEN iffD2])
    also have "\<dots> \<le> x" by (simp add: n_def)
    finally have "2 ^ nat (bitlen n - 1) \<le> x" by simp
    moreover have "binade x = bitlen n - 1" using True by (simp add: binade_def n_def)
    ultimately show ?thesis using b by (simp add: power_int_def)
  next
    case False
    define y where "y = 1 / x"
    define m where "m = \<lceil>y\<rceil> - 1"
    have y: "1 < y" using False assms by (simp add: y_def)
    then have m: "1 \<le> m" unfolding m_def by (simp add: less_ceiling_iff)
    then have b: "1 \<le> bitlen m" by (simp add: bitlen_alt_def)
    from bitlen_bounds[of m] m have "m < 2 ^ nat (bitlen m)" by simp
    then have "m + 1 \<le> 2 ^ nat (bitlen m)" by simp
    then have "rat_of_int (m + 1) \<le> of_int (2 ^ nat (bitlen m))" by (rule of_int_le_iff[THEN iffD2])
    moreover have "y \<le> of_int (m + 1)" by (simp add: m_def)
    ultimately have "y \<le> 2 ^ nat (bitlen m)" by simp
    then have "1 / 2 ^ nat (bitlen m) \<le> 1 / y" using y by (simp add: field_simps)
    moreover have "1 / y = x" by (simp add: y_def)
    moreover have "binade x = - bitlen m" using False by (simp add: binade_def m_def y_def)
    ultimately show ?thesis using b by (simp add: power_int_def field_simps)
  qed
  show "x < 2 powi (binade x + 1)"
  proof (cases "1 \<le> x")
    case True
    define n where "n = \<lfloor>x\<rfloor>"
    have n: "1 \<le> n" using True by (simp add: n_def le_floor_iff)
    then have b: "1 \<le> bitlen n" by (simp add: bitlen_alt_def)
    from bitlen_bounds[of n] n have "n < 2 ^ nat (bitlen n)" by simp
    then have "n + 1 \<le> 2 ^ nat (bitlen n)" by simp
    then have "rat_of_int (n + 1) \<le> of_int (2 ^ nat (bitlen n))" by (rule of_int_le_iff[THEN iffD2])
    moreover have "x < of_int (n + 1)" unfolding n_def by linarith
    ultimately have "x < 2 ^ nat (bitlen n)" by simp
    moreover have "binade x = bitlen n - 1" using True by (simp add: binade_def n_def)
    ultimately show ?thesis using b by (simp add: power_int_def)
  next
    case False
    define y where "y = 1 / x"
    define m where "m = \<lceil>y\<rceil> - 1"
    have y: "1 < y" using False assms by (simp add: y_def)
    then have m: "1 \<le> m" unfolding m_def by (simp add: less_ceiling_iff)
    then have b: "1 \<le> bitlen m" by (simp add: bitlen_alt_def)
    from bitlen_bounds[of m] m have "2 ^ nat (bitlen m - 1) \<le> m" by simp
    then have "rat_of_int (2 ^ nat (bitlen m - 1)) \<le> of_int m" by (rule of_int_le_iff[THEN iffD2])
    then have "(2::rat) ^ nat (bitlen m - 1) \<le> of_int m" by simp
    moreover have "of_int m < y" unfolding m_def by linarith
    ultimately have "2 ^ nat (bitlen m - 1) < y" by linarith
    then have "1 / y < 1 / 2 ^ nat (bitlen m - 1)" using y by (simp add: field_simps)
    moreover have "1 / y = x" by (simp add: y_def)
    moreover have "binade x = - bitlen m" using False by (simp add: binade_def m_def y_def)
    moreover have "(2::rat) powi (- bitlen m + 1) = 1 / 2 ^ nat (bitlen m - 1)"
    proof -
      have "- bitlen m + 1 = - (bitlen m - 1)" by simp
      then have "(2::rat) powi (- bitlen m + 1) = 1 / 2 powi (bitlen m - 1)"
        by (simp only: power_int_minus_divide)
      then show ?thesis using b by (simp add: power_int_nonneg_exp)
    qed
    ultimately show ?thesis by simp
  qed
qed

lemma binade_unique:
  assumes "0 < x" "2 powi e \<le> x" "x < 2 powi (e + 1)"
  shows "binade x = e"
proof -
  have "(2::rat) powi binade x < 2 powi (e + 1)"
    using binade_bounds(1)[OF assms(1)] assms(3) by simp
  then have "binade x < e + 1" by (rule powi_less_cancel)
  moreover have "(2::rat) powi e < 2 powi (binade x + 1)"
    using binade_bounds(2)[OF assms(1)] assms(2) by simp
  then have "e < binade x + 1" by (rule powi_less_cancel)
  ultimately show ?thesis by simp
qed

lemma binade_mono:
  assumes "0 < x" "x \<le> y"
  shows "binade x \<le> binade y"
proof -
  have "0 < y" using assms by simp
  have "(2::rat) powi binade x < 2 powi (binade y + 1)"
    using binade_bounds(1)[OF assms(1)] binade_bounds(2)[OF \<open>0 < y\<close>] assms(2) by simp
  then have "binade x < binade y + 1" by (rule powi_less_cancel)
  then show ?thesis by simp
qed

lemma round_half_even_of_int: "round_half_even (of_int n) = n"
  by (simp add: round_half_even_def)

lemma round_half_even_mono:
  assumes "x \<le> y"
  shows "round_half_even x \<le> round_half_even y"
proof (cases "\<lfloor>x\<rfloor> = \<lfloor>y\<rfloor>")
  case True
  then show ?thesis using assms by (auto simp: round_half_even_def Let_def)
next
  case False
  then have "\<lfloor>x\<rfloor> + 1 \<le> \<lfloor>y\<rfloor>" using floor_mono[OF assms] by simp
  moreover have "round_half_even x \<le> \<lfloor>x\<rfloor> + 1" by (simp add: round_half_even_def Let_def)
  moreover have "\<lfloor>y\<rfloor> \<le> round_half_even y" by (simp add: round_half_even_def Let_def)
  ultimately show ?thesis by simp
qed


lemma round_double_zero: "round_double 0 = 0"
  by (simp add: round_double_def)

lemma round_double_minus: "round_double (- x) = - round_double x"
  by (simp add: round_double_def Let_def)

lemma round_double_pos:
  assumes "0 < x"
  shows "round_double x =
    of_int (round_half_even (x / 2 powi max (binade x - 52) (- 1074)))
      * 2 powi max (binade x - 52) (- 1074)"
  using assms by (simp add: round_double_def Let_def)

lemma round_half_even_nonneg: "0 \<le> x \<Longrightarrow> 0 \<le> round_half_even x"
  using round_half_even_mono[of 0 x] round_half_even_of_int[of 0] by simp

lemma round_double_nonneg:
  assumes "0 \<le> x"
  shows "0 \<le> round_double x"
proof (cases "x = 0")
  case True
  then show ?thesis by (simp add: round_double_zero)
next
  case False
  then have "0 < x" using assms by simp
  then have "0 \<le> x / 2 powi max (binade x - 52) (- 1074)" by simp
  then have "0 \<le> round_half_even (x / 2 powi max (binade x - 52) (- 1074))"
    by (rule round_half_even_nonneg)
  then show ?thesis unfolding round_double_pos[OF \<open>0 < x\<close>] by simp
qed

lemma round_double_le_grid:
  assumes "0 < x" and "x \<le> of_int n * 2 powi max (binade x - 52) (- 1074)"
  shows "round_double x \<le> of_int n * 2 powi max (binade x - 52) (- 1074)"
proof -
  let ?u = "(2::rat) powi max (binade x - 52) (- 1074)"
  have u: "0 < ?u" by simp
  have "x / ?u \<le> of_int n" using assms(2) u by (simp add: field_simps)
  then have "round_half_even (x / ?u) \<le> n"
    using round_half_even_mono[of "x / ?u" "of_int n"] by (simp add: round_half_even_of_int)
  then have "rat_of_int (round_half_even (x / ?u)) \<le> of_int n" by simp
  then have "rat_of_int (round_half_even (x / ?u)) * ?u \<le> of_int n * ?u"
    using u by (simp only: mult_le_cancel_right_pos)
  then show ?thesis unfolding round_double_pos[OF assms(1)] .
qed

lemma round_double_ge_grid:
  assumes "0 < x" and "of_int n * 2 powi max (binade x - 52) (- 1074) \<le> x"
  shows "of_int n * 2 powi max (binade x - 52) (- 1074) \<le> round_double x"
proof -
  let ?u = "(2::rat) powi max (binade x - 52) (- 1074)"
  have u: "0 < ?u" by simp
  have "of_int n \<le> x / ?u" using assms(2) u by (simp add: field_simps)
  then have "n \<le> round_half_even (x / ?u)"
    using round_half_even_mono[of "of_int n" "x / ?u"] by (simp add: round_half_even_of_int)
  then have "rat_of_int n \<le> of_int (round_half_even (x / ?u))" by simp
  then have "of_int n * ?u \<le> rat_of_int (round_half_even (x / ?u)) * ?u"
    using u by (simp only: mult_le_cancel_right_pos)
  then show ?thesis unfolding round_double_pos[OF assms(1)] .
qed

lemma powi_diff_nat:
  assumes "q \<le> b"
  shows "(2::rat) powi b = of_int (2 ^ nat (b - q)) * 2 powi q"
proof -
  have "(2::rat) powi b = 2 powi ((b - q) + q)" by simp
  also have "\<dots> = 2 powi (b - q) * 2 powi q" by (rule power_int_add) simp
  also have "(2::rat) powi (b - q) = 2 ^ nat (b - q)"
    using assms by (simp add: power_int_nonneg_exp)
  finally show ?thesis by simp
qed

lemma round_double_mono_pos:
  assumes "0 < x" and "x \<le> y"
  shows "round_double x \<le> round_double y"
proof -
  define qx where "qx = max (binade x - 52) (- 1074)"
  define qy where "qy = max (binade y - 52) (- 1074)"
  have y: "0 < y" using assms by simp
  have bxy: "binade x \<le> binade y" using assms by (rule binade_mono)
  then have qxy: "qx \<le> qy" by (simp add: qx_def qy_def)
  show ?thesis
  proof (cases "qx = qy")
    case True
    have u: "0 < (2::rat) powi qx" by simp
    have "x / 2 powi qx \<le> y / 2 powi qx" using assms(2) u by (simp add: divide_right_mono)
    then have "round_half_even (x / 2 powi qx) \<le> round_half_even (y / 2 powi qx)"
      by (rule round_half_even_mono)
    then have "rat_of_int (round_half_even (x / 2 powi qx))
                 \<le> of_int (round_half_even (y / 2 powi qx))" by simp
    then have "rat_of_int (round_half_even (x / 2 powi qx)) * 2 powi qx
                 \<le> of_int (round_half_even (y / 2 powi qx)) * 2 powi qx"
      using u by (simp only: mult_le_cancel_right_pos)
    then show ?thesis
      unfolding round_double_pos[OF assms(1)] round_double_pos[OF y]
      using True by (simp add: qx_def qy_def)
  next
    case False
    then have lt: "qx < qy" using qxy by simp
    then have qy_eq: "qy = binade y - 52" by (auto simp: qx_def qy_def)
    have "binade x - 52 \<le> qx" by (simp add: qx_def)
    then have b1: "binade x + 1 \<le> binade y" using lt qy_eq by simp
    define B where "B = (2::rat) powi binade y"
    have "x < 2 powi (binade x + 1)" using binade_bounds(2)[OF assms(1)] .
    also have "\<dots> \<le> B" unfolding B_def using b1 by (intro power_int_increasing) auto
    finally have xB: "x \<le> B" by simp
    have By: "B \<le> y" unfolding B_def using binade_bounds(1)[OF y] .
    have Bx: "B = of_int (2 ^ nat (binade y - qx)) * 2 powi qx"
      unfolding B_def using lt qy_eq by (intro powi_diff_nat) simp
    have By': "B = of_int (2 ^ nat (binade y - qy)) * 2 powi qy"
      unfolding B_def using qy_eq by (intro powi_diff_nat) simp
    have "round_double x \<le> B"
      using round_double_le_grid[OF assms(1), of "2 ^ nat (binade y - qx)"] xB Bx
      by (simp add: qx_def)
    moreover have "B \<le> round_double y"
      using round_double_ge_grid[OF y, of "2 ^ nat (binade y - qy)"] By By'
      by (simp add: qy_def)
    ultimately show ?thesis by simp
  qed
qed

lemma round_double_mono:
  assumes "x \<le> y"
  shows "round_double x \<le> round_double y"
proof -
  consider "0 < x" | "x \<le> 0" "0 \<le> y" | "y < 0" using assms by linarith
  then show ?thesis
  proof cases
    case 1
    then show ?thesis using assms by (rule round_double_mono_pos)
  next
    case 2
    have "0 \<le> round_double (- x)" using 2(1) by (intro round_double_nonneg) simp
    then have "round_double x \<le> 0" by (simp add: round_double_minus)
    moreover have "0 \<le> round_double y" using 2(2) by (rule round_double_nonneg)
    ultimately show ?thesis by simp
  next
    case 3
    then have "0 < - y" "- y \<le> - x" using assms by simp_all
    then have "round_double (- y) \<le> round_double (- x)" by (rule round_double_mono_pos)
    then show ?thesis by (simp add: round_double_minus)
  qed
qed

lemma round_half_even_less:
  assumes "z < of_int M - 1 / 2"
  shows "round_half_even z < M"
proof -
  have "z < of_int M" using assms by simp
  then have fl: "\<lfloor>z\<rfloor> \<le> M - 1" by (simp add: floor_less_iff)
  show ?thesis
  proof (cases "\<lfloor>z\<rfloor> = M - 1")
    case True
    then have "z - of_int \<lfloor>z\<rfloor> < 1 / 2" using assms by simp
    then show ?thesis using True by (simp add: round_half_even_def Let_def)
  next
    case False
    then have "\<lfloor>z\<rfloor> + 1 < M" using fl by simp
    moreover have "round_half_even z \<le> \<lfloor>z\<rfloor> + 1" by (simp add: round_half_even_def Let_def)
    ultimately show ?thesis by simp
  qed
qed

lemma round_double_grid_fixed:
  assumes "0 < x" and "x = of_int n * 2 powi max (binade x - 52) (- 1074)"
  shows "round_double x = x"
proof -
  let ?u = "(2::rat) powi max (binade x - 52) (- 1074)"
  have "x / ?u = of_int n" using assms(2) by (simp add: field_simps)
  then show ?thesis unfolding round_double_pos[OF assms(1)]
    using assms(2) by (simp add: round_half_even_of_int)
qed

lemma binade_lt:
  assumes "0 < x" "x < 2 powi e" shows "binade x < e"
  using binade_bounds(1)[OF assms(1)] assms(2) by (intro powi_less_cancel) simp

lemma binade_ge:
  assumes "2 powi e \<le> x" shows "e \<le> binade x"
proof -
  have "0 < x" using assms zero_less_power_int[of "2::rat" e] by linarith
  have "(2::rat) powi e < 2 powi (binade x + 1)"
    using binade_bounds(2)[OF \<open>0 < x\<close>] assms by simp
  then have "e < binade x + 1" by (rule powi_less_cancel)
  then show ?thesis by simp
qed

lemma round_double_of_int:
  assumes "0 \<le> n" "n < 2 ^ 53"
  shows "round_double (of_int n) = of_int n"
proof (cases "n = 0")
  case True
  then show ?thesis by (simp add: round_double_zero)
next
  case False
  then have n: "1 \<le> n" using assms by simp
  let ?x = "rat_of_int n"
  have pos: "0 < ?x" using n by simp
  have "(2::rat) powi 0 \<le> ?x" using n by simp
  then have b0: "0 \<le> binade ?x" by (rule binade_ge)
  have "?x < rat_of_int (2 ^ 53)" using assms(2) by (simp only: of_int_less_iff)
  then have "?x < 2 powi 53" by simp
  then have b53: "binade ?x < 53" using pos by (intro binade_lt)
  have q: "max (binade ?x - 52) (- 1074) = binade ?x - 52" using b0 by simp
  have "(2::rat) powi 0 = of_int (2 ^ nat (0 - (binade ?x - 52))) * 2 powi (binade ?x - 52)"
    using b53 by (intro powi_diff_nat) simp
  then have "?x = of_int (n * 2 ^ nat (0 - (binade ?x - 52))) * 2 powi (binade ?x - 52)"
    by simp
  then show ?thesis using round_double_grid_fixed[OF pos, of "n * 2 ^ nat (0 - (binade ?x - 52))"]
    by (simp only: q)
qed

lemma is_double_grid:
  assumes "is_double r" "0 < r"
  shows "\<exists>n. r = of_int n * 2 powi max (binade r - 52) (- 1074)"
  using assms round_double_pos[OF assms(2)] unfolding is_double_def by metis


lemma py_int_round_div10:
  assumes "is_double r" "20 < r" "r < 2 ^ 53"
  shows "py_int (round_double (r / 10)) = \<lfloor>r / 10\<rfloor>"
proof -
  define y where "y = r / 10"
  define k where "k = \<lfloor>y\<rfloor>"
  have r10: "r = 10 * y" by (simp add: y_def)
  have y2: "2 < y" using assms(2) by (simp add: y_def)
  have ypos: "0 < y" using y2 by simp
  have rpos: "0 < r" using assms(2) by simp
  have ky: "of_int k \<le> y" "y < of_int k + 1" unfolding k_def by linarith+
  have k2: "2 \<le> k" unfolding k_def using y2 by (simp add: le_floor_iff)
  have y53: "y < 2 ^ 53" using assms(3) rpos by (simp add: y_def)
  have "rat_of_int k < of_int (2 ^ 53)" using ky(1) y53 by simp
  then have k53: "k < 2 ^ 53" by (simp only: of_int_less_iff)
  have "round_double (of_int k) \<le> round_double y" using ky(1) by (rule round_double_mono)
  then have lower: "of_int k \<le> round_double y"
    using round_double_of_int[of k] k2 k53 by simp
  define e where "e = binade y"
  define j where "j = binade r"
  have "(2::rat) powi 1 \<le> y" using y2 by simp
  then have e1: "1 \<le> e" unfolding e_def by (rule binade_ge)
  have "y < 2 powi 53" using y53 by simp
  then have e52: "e \<le> 52" unfolding e_def using binade_lt[OF ypos, of 53] by simp
  have "r < 2 powi 53" using assms(3) by simp
  then have j52: "j \<le> 52" unfolding j_def using binade_lt[OF rpos, of 53] by simp
  have ey: "2 powi e \<le> y" unfolding e_def using binade_bounds(1)[OF ypos] .
  have "(2::rat) powi (e + 3) = 2 powi e * 2 powi 3" by (rule power_int_add) simp
  also have "\<dots> = 8 * 2 powi e" by simp
  also have "\<dots> \<le> r" using ey ypos unfolding r10 by linarith
  finally have je: "e + 3 \<le> j" unfolding j_def by (rule binade_ge)
  define uy where "uy = (2::rat) powi (e - 52)"
  define ur where "ur = (2::rat) powi (j - 52)"
  have uy_pos: "0 < uy" and ur_pos: "0 < ur" by (simp_all add: uy_def ur_def)
  have "(2::rat) powi (j - 52) = 2 powi ((j - e) + (e - 52))" by simp
  also have "\<dots> = 2 powi (j - e) * 2 powi (e - 52)" by (rule power_int_add) simp
  finally have ur_eq: "ur = 2 powi (j - e) * uy" by (simp add: ur_def uy_def)
  have "(2::rat) powi 3 \<le> 2 powi (j - e)" using je by (intro power_int_increasing) auto
  then have "8 * uy \<le> 2 powi (j - e) * uy" using uy_pos by simp
  then have ur8: "8 * uy \<le> ur" by (simp add: ur_eq)
  have qy: "max (binade y - 52) (- 1074) = e - 52" using e1 by (simp add: e_def)
  have qr: "max (binade r - 52) (- 1074) = j - 52" using je e1 by (simp add: j_def)
  obtain n where n: "r = of_int n * ur"
    using is_double_grid[OF assms(1) rpos] unfolding qr ur_def by blast
  have "(2::rat) powi 0 = of_int (2 ^ nat (0 - (j - 52))) * 2 powi (j - 52)"
    using j52 by (intro powi_diff_nat) simp
  then have one_r: "1 = rat_of_int (2 ^ nat (0 - (j - 52))) * ur" by (simp add: ur_def)
  define N where "N = 10 * (k + 1) * 2 ^ nat (0 - (j - 52))"
  have "rat_of_int N = of_int (10 * (k + 1)) * rat_of_int (2 ^ nat (0 - (j - 52)))"
    unfolding N_def by (simp only: of_int_mult)
  then have "rat_of_int N * ur
               = of_int (10 * (k + 1)) * (rat_of_int (2 ^ nat (0 - (j - 52))) * ur)"
    by (simp only: mult.assoc)
  then have N: "rat_of_int N * ur = of_int (10 * (k + 1))"
    by (simp only: one_r[symmetric] mult_1_right)
  have "r < of_int (10 * (k + 1))" using ky(2) unfolding r10 by simp
  then have "rat_of_int n * ur < of_int N * ur" using n N by simp
  then have "rat_of_int n < of_int N" using ur_pos by (simp only: mult_less_cancel_right_pos)
  then have "n \<le> N - 1" by simp
  then have "rat_of_int n \<le> of_int (N - 1)" by (simp only: of_int_le_iff)
  then have "rat_of_int n * ur \<le> of_int (N - 1) * ur"
    using ur_pos by (simp only: mult_le_cancel_right_pos)
  then have "r \<le> of_int N * ur - ur" using n by (simp add: algebra_simps)
  then have r_le: "r \<le> of_int (10 * (k + 1)) - ur" using N by simp
  have "(2::rat) powi 0 = of_int (2 ^ nat (0 - (e - 52))) * 2 powi (e - 52)"
    using e52 by (intro powi_diff_nat) simp
  then have one_y: "1 = rat_of_int (2 ^ nat (0 - (e - 52))) * uy" by (simp add: uy_def)
  define M where "M = (k + 1) * 2 ^ nat (0 - (e - 52))"
  have "rat_of_int M = of_int (k + 1) * rat_of_int (2 ^ nat (0 - (e - 52)))"
    unfolding M_def by (simp only: of_int_mult)
  then have "rat_of_int M * uy = of_int (k + 1) * (rat_of_int (2 ^ nat (0 - (e - 52))) * uy)"
    by (simp only: mult.assoc)
  then have M: "rat_of_int M * uy = of_int (k + 1)"
    by (simp only: one_y[symmetric] mult_1_right)
  have "10 * y \<le> 10 * of_int (k + 1) - 8 * uy" using r_le ur8 unfolding r10 by simp
  then have "y < of_int (k + 1) - uy / 2" using uy_pos by simp
  then have "y < of_int M * uy - (1 / 2) * uy" using M by simp
  then have "y < (of_int M - 1 / 2) * uy" by (simp add: algebra_simps)
  then have "y / uy < of_int M - 1 / 2" using uy_pos by (simp add: pos_divide_less_eq)
  then have "round_half_even (y / uy) < M" by (rule round_half_even_less)
  then have "round_half_even (y / uy) \<le> M - 1" by simp
  then have "rat_of_int (round_half_even (y / uy)) \<le> of_int (M - 1)"
    by (simp only: of_int_le_iff)
  then have A: "rat_of_int (round_half_even (y / uy)) * uy \<le> of_int (M - 1) * uy"
    using uy_pos by (simp only: mult_le_cancel_right_pos)
  have B: "round_double y = rat_of_int (round_half_even (y / uy)) * uy"
    unfolding round_double_pos[OF ypos] qy uy_def ..
  have C: "rat_of_int (M - 1) * uy = of_int (k + 1) - uy"
    using M by (simp add: algebra_simps)
  have "round_double y \<le> of_int (k + 1) - uy" using A unfolding B C .
  then have upper: "round_double y < of_int k + 1" using uy_pos by simp
  have "\<lfloor>round_double y\<rfloor> = k" using lower upper by (simp add: floor_eq_iff)
  moreover have "0 \<le> round_double y" using lower k2 by simp
  ultimately show ?thesis by (simp add: py_int_def y_def k_def)
qed


lemma py_int_mono_nonneg:
  assumes "0 \<le> x" "x \<le> y"
  shows "py_int x \<le> py_int y"
  using assms by (simp add: py_int_def floor_mono)

lemma py_int_nonneg: "0 \<le> x \<Longrightarrow> 0 \<le> py_int x"
  by (simp add: py_int_def)

lemma failed_tx_penalty_mono:
  assumes "r \<le> r'"
  shows "(if 20 < r then py_int (round_double (r / 10)) * 5 else 0)
           \<le> (if 20 < r' then py_int (round_double (r' / 10)) * 5 else 0)"
proof (cases "20 < r")
  case True
  then have r': "20 < r'" using assms by simp
  have "0 \<le> round_double (r / 10)" using True by (intro round_double_nonneg) simp
  moreover have "round_double (r / 10) \<le> round_double (r' / 10)"
    using assms by (intro round_double_mono) simp
  ultimately have "py_int (round_double (r / 10)) \<le> py_int (round_double (r' / 10))"
    by (rule py_int_mono_nonneg)
  then show ?thesis using True r' by simp
next
  case False
  show ?thesis
  proof (cases "20 < r'")
    case True
    have "0 \<le> round_double (r' / 10)" using True by (intro round_double_nonneg) simp
    then have "0 \<le> py_int (round_double (r' / 10))" by (rule py_int_nonneg)
    then show ?thesis using False True by simp
  next
    case F: False
    then show ?thesis using False by simp
  qed
qed

lemma clamp_mono: "(b::int) \<le> b' \<Longrightarrow> max 0 (min 100 b) \<le> max 0 (min 100 b')"
  by simp

section \<open>The scoring formula in closed form\<close>

lemma base_score_eq:
  "base_score (scoring_logic s) =
     50 + min 20 (wallet_age_days s div 30) + min 20 (uniswap_tx_count s div 10)
        + min 15 (vote_count s * 2) - liquidation_count s * 20
        - (if tornado_interaction s then 40 else 0)
        - (if 20 < failed_tx_rate s then py_int (round_double (failed_tx_rate s / 10)) * 5
           else 0)
        - rug_pull_events s * 50"
  by (cases "tornado_interaction s"; cases "20 < failed_tx_rate s";
      simp add: scoring_logic_def Let_def)

lemma score_log_eq:
  "score_log (scoring_logic s) =
     [WalletAge (wallet_age_days s) (min 20 (wallet_age_days s div 30)),
      UniswapSwaps (uniswap_tx_count s) (min 20 (uniswap_tx_count s div 10)),
      SnapshotGovVotes (vote_count s) (min 15 (vote_count s * 2)),
      AaveLiquidations (liquidation_count s) (liquidation_count s * 20)]
     @ (if tornado_interaction s then [TornadoCashInteraction 40] else [])
     @ [FailedTxRate (failed_tx_count s) (failed_tx_rate s)
          (if 20 < failed_tx_rate s then py_int (round_double (failed_tx_rate s / 10)) * 5
           else 0),
        DetectedRugPulls (rug_pull_events s) (rug_pull_events s * 50)]"
  by (simp add: scoring_logic_def Let_def)

section \<open>The final score is clamped\<close>

lemma final_score_eq:
  "final_score (scoring_logic s) = max 0 (min 100 (base_score (scoring_logic s)))"
  unfolding scoring_logic_def Let_def by (simp only: score_result.simps)

text \<open>
  C1: for every combination of signals the final score is an integer between 0 and 100
  inclusive; a running total below 0 gives 0 and one above 100 gives 100.
\<close>

theorem final_score_clamped:
  "0 \<le> final_score (scoring_logic s) \<and> final_score (scoring_logic s) \<le> 100
   \<and> final_score (scoring_logic s) =
       (if base_score (scoring_logic s) < 0 then 0
        else if 100 < base_score (scoring_logic s) then 100
        else base_score (scoring_logic s))"
  unfolding final_score_eq by simp

section \<open>The breakdown log\<close>

text \<open>
  C2, as the code has it: the six lines for age, swaps, votes, liquidations, failed
  transactions and rug pulls are always appended, in this order; the line for the mixer
  penalty stands between liquidations and failed transactions exactly when the flag is
  true, so that the log has seven lines then and six otherwise. The points of the lines
  add up, with the base of 50, to the running total.
\<close>

theorem breakdown_entries:
  "map label (score_log (scoring_logic s)) =
     [''Wallet Age'', ''Uniswap Swaps'', ''Snapshot Gov Votes'', ''Aave Liquidations'']
     @ (if tornado_interaction s then [''Tornado Cash Interaction''] else [])
     @ [''Failed TX Rate'', ''Detected Rug Pulls'']
   \<and> length (score_log (scoring_logic s)) = (if tornado_interaction s then 7 else 6)
   \<and> base_score (scoring_logic s) = 50 + sum_list (map points (score_log (scoring_logic s)))"
  unfolding score_log_eq base_score_eq by simp

text \<open>
  C2, as the claim states it, fails: with the flag false no line for the mixer step is
  in the log.
\<close>

theorem no_mixer_entry_when_flag_false:
  "map label (score_log (scoring_logic
     \<lparr>wallet_age_days = 0, tornado_interaction = False, failed_tx_count = 0,
      failed_tx_rate = 0, rug_pull_events = 0, uniswap_tx_count = 0,
      liquidation_count = 0, vote_count = 0\<rparr>))
   = [''Wallet Age'', ''Uniswap Swaps'', ''Snapshot Gov Votes'', ''Aave Liquidations'',
      ''Failed TX Rate'', ''Detected Rug Pulls'']"
  by code_simp

section \<open>The end-to-end scenario\<close>

text \<open>
  C5: age 365, 50 swaps, 10 votes, 1 liquidation, no mixer interaction, 5 failed
  transactions at a rate of 25 percent, no rug pull: the points are +12, +5, +15, -20,
  nothing for the mixer, -10 and -0 on the base of 50, and the final score is 52.
\<close>

theorem end_to_end_scenario:
  "scoring_logic
     \<lparr>wallet_age_days = 365, tornado_interaction = False, failed_tx_count = 5,
      failed_tx_rate = 25, rug_pull_events = 0, uniswap_tx_count = 50,
      liquidation_count = 1, vote_count = 10\<rparr>
   = \<lparr>score_log = [WalletAge 365 12, UniswapSwaps 50 5, SnapshotGovVotes 10 15,
         AaveLiquidations 1 20, FailedTxRate 5 25 10, DetectedRugPulls 0 0],
      base_score = 50 + 12 + 5 + 15 - 20 - 0 - 10 - 0, final_score = 52\<rparr>"
  by code_simp

section \<open>The mixer flag\<close>

lemma lower_TORNADO_CASH_ROUTER: "lower TORNADO_CASH_ROUTER = TORNADO_CASH_ROUTER"
  by code_simp

lemma check_tornado_interaction_iff:
  "check_tornado_interaction_from_tx_list txs \<longleftrightarrow>
     (\<exists>tx \<in> set txs. lower (case tx_to tx of None \<Rightarrow> [] | Some a \<Rightarrow> a) = TORNADO_CASH_ROUTER)"
  by (induction txs) auto

text \<open>
  C6: the flag is true exactly when some transaction's \<open>to\<close> address (the empty string
  when the key is absent) equals the router constant after both are lower-cased; a true
  flag takes exactly 40 points off the running total, however many transactions match.
\<close>

theorem mixer_flag_and_penalty:
  "(check_tornado_interaction_from_tx_list txs \<longleftrightarrow>
      (\<exists>tx \<in> set txs. lower (case tx_to tx of None \<Rightarrow> [] | Some a \<Rightarrow> a)
                         = lower TORNADO_CASH_ROUTER))
   \<and> base_score (scoring_logic (s\<lparr>tornado_interaction := True\<rparr>))
       = base_score (scoring_logic (s\<lparr>tornado_interaction := False\<rparr>)) - 40"
  unfolding lower_TORNADO_CASH_ROUTER check_tornado_interaction_iff base_score_eq by simp

theorem mixer_flag_and_penalty_witness:
  "check_tornado_interaction_from_tx_list
     [\<lparr>tx_timeStamp = 1, tx_to = Some ''0xABC'', tx_isError = None,
       tx_contractAddress = None\<rparr>,
      \<lparr>tx_timeStamp = 2, tx_to = Some ''0x722122DF12D4E14E13AC3B6895A86E84145B6967'',
       tx_isError = None, tx_contractAddress = None\<rparr>,
      \<lparr>tx_timeStamp = 3, tx_to = Some ''0x722122df12d4e14e13ac3b6895a86e84145b6967'',
       tx_isError = None, tx_contractAddress = None\<rparr>]
   \<and> base_score (scoring_logic
        \<lparr>wallet_age_days = 0, tornado_interaction = True, failed_tx_count = 0,
         failed_tx_rate = 0, rug_pull_events = 0, uniswap_tx_count = 0,
         liquidation_count = 0, vote_count = 0\<rparr>) = 10"
  using mixer_flag_and_penalty
    [of "[\<lparr>tx_timeStamp = 1, tx_to = Some ''0xABC'', tx_isError = None,
           tx_contractAddress = None\<rparr>,
          \<lparr>tx_timeStamp = 2, tx_to = Some ''0x722122DF12D4E14E13AC3B6895A86E84145B6967'',
           tx_isError = None, tx_contractAddress = None\<rparr>,
          \<lparr>tx_timeStamp = 3, tx_to = Some ''0x722122df12d4e14e13ac3b6895a86e84145b6967'',
           tx_isError = None, tx_contractAddress = None\<rparr>]"
        "\<lparr>wallet_age_days = 0, tornado_interaction = True, failed_tx_count = 0,
          failed_tx_rate = 0, rug_pull_events = 0, uniswap_tx_count = 0,
          liquidation_count = 0, vote_count = 0\<rparr>"]
  by code_simp

section \<open>The wallet age\<close>

text \<open>
  C9: the age of an empty list is 0; otherwise it is the number of whole days (the
  floor) between the injected current time and the local date of the first element's
  timestamp, whatever the rest of the list holds.
\<close>

theorem wallet_age_from_first_transaction:
  assumes "fromtimestamp (tx_timeStamp tx) = Inr first_tx_date"
  shows "get_wallet_age_from_tx_list fromtimestamp now [] = Inr 0
   \<and> get_wallet_age_from_tx_list fromtimestamp now (tx # rest)
       = Inr ((now - first_tx_date) div microseconds_per_day)
   \<and> (now - first_tx_date) div microseconds_per_day * microseconds_per_day
       \<le> now - first_tx_date
   \<and> now - first_tx_date
       < ((now - first_tx_date) div microseconds_per_day + 1) * microseconds_per_day"
proof -
  let ?a = "now - first_tx_date"
  have pos: "0 < microseconds_per_day" by (simp add: microseconds_per_day_def)
  have eq: "?a div microseconds_per_day * microseconds_per_day
              + ?a mod microseconds_per_day = ?a"
    by (rule div_mult_mod_eq)
  have lo: "0 \<le> ?a mod microseconds_per_day" using pos by (rule pos_mod_sign)
  have hi: "?a mod microseconds_per_day < microseconds_per_day"
    using pos by (rule pos_mod_bound)
  have "(?a div microseconds_per_day + 1) * microseconds_per_day
          = ?a div microseconds_per_day * microseconds_per_day + microseconds_per_day"
    by (simp add: algebra_simps)
  then have "?a div microseconds_per_day * microseconds_per_day \<le> ?a"
    and "?a < (?a div microseconds_per_day + 1) * microseconds_per_day"
    using eq lo hi by linarith+
  then show ?thesis using assms by (simp add: get_wallet_age_from_tx_list_def)
qed

theorem wallet_age_from_first_transaction_witness:
  "get_wallet_age_from_tx_list (\<lambda>t. Inr (t * 1000000)) 1700259200000005
     [\<lparr>tx_timeStamp = 1700000000, tx_to = None, tx_isError = None,
       tx_contractAddress = None\<rparr>,
      \<lparr>tx_timeStamp = 1600000000, tx_to = None, tx_isError = None,
       tx_contractAddress = None\<rparr>]
   = Inr 3"
  using wallet_age_from_first_transaction
    [of "\<lambda>t. Inr (t * 1000000)"
        "\<lparr>tx_timeStamp = 1700000000, tx_to = None, tx_isError = None,
          tx_contractAddress = None\<rparr>"
        1700000000000000 1700259200000005
        "[\<lparr>tx_timeStamp = 1600000000, tx_to = None, tx_isError = None,
           tx_contractAddress = None\<rparr>]"]
  by (simp add: microseconds_per_day_def)

section \<open>The failed-transaction penalty\<close>

text \<open>
  C7: for every rate \<open>r\<close> that is a binary64 value below \<open>2 ^ 53\<close> (the extractor only
  yields rates between 0 and 100), the penalty taken off the running total and
  reported in the log is \<open>floor (r / 10) * 5\<close> when \<open>r > 20\<close> and 0 when \<open>r \<le> 20\<close>: the
  rounding of the float division \<open>r / 10\<close> never reaches the next integer.
\<close>

theorem failed_tx_penalty:
  assumes "is_double (failed_tx_rate s)" and "failed_tx_rate s < 2 ^ 53"
  shows "base_score (scoring_logic s)
           = base_score (scoring_logic (s\<lparr>failed_tx_rate := 0\<rparr>))
             - (if 20 < failed_tx_rate s then \<lfloor>failed_tx_rate s / 10\<rfloor> * 5 else 0)
   \<and> FailedTxRate (failed_tx_count s) (failed_tx_rate s)
        (if 20 < failed_tx_rate s then \<lfloor>failed_tx_rate s / 10\<rfloor> * 5 else 0)
       \<in> set (score_log (scoring_logic s))"
proof (cases "20 < failed_tx_rate s")
  case True
  then have "py_int (round_double (failed_tx_rate s / 10)) = \<lfloor>failed_tx_rate s / 10\<rfloor>"
    using assms by (intro py_int_round_div10)
  then show ?thesis using True unfolding base_score_eq score_log_eq by simp
next
  case False
  then show ?thesis unfolding base_score_eq score_log_eq by simp
qed

theorem failed_tx_penalty_witness:
  "base_score (scoring_logic
     \<lparr>wallet_age_days = 0, tornado_interaction = False, failed_tx_count = 7,
      failed_tx_rate = 35, rug_pull_events = 0, uniswap_tx_count = 0,
      liquidation_count = 0, vote_count = 0\<rparr>) = 50 - 15
   \<and> base_score (scoring_logic
     \<lparr>wallet_age_days = 0, tornado_interaction = False, failed_tx_count = 1,
      failed_tx_rate = 20, rug_pull_events = 0, uniswap_tx_count = 0,
      liquidation_count = 0, vote_count = 0\<rparr>) = 50"
  using failed_tx_penalty
    [of "\<lparr>wallet_age_days = 0, tornado_interaction = False, failed_tx_count = 7,
          failed_tx_rate = 35, rug_pull_events = 0, uniswap_tx_count = 0,
          liquidation_count = 0, vote_count = 0\<rparr>"]
    failed_tx_penalty
    [of "\<lparr>wallet_age_days = 0, tornado_interaction = False, failed_tx_count = 1,
          failed_tx_rate = 20, rug_pull_events = 0, uniswap_tx_count = 0,
          liquidation_count = 0, vote_count = 0\<rparr>"]
  by code_simp

section \<open>Monotonicity of the score\<close>

text \<open>
  C10: with the other signals fixed, the final score does not decrease when the age,
  the swap count or the vote count grows, and does not increase when the liquidation
  count, the rug-pull count or the failed-transaction rate grows.
\<close>

theorem score_monotone:
  assumes "n \<le> m" and "r \<le> r'"
  shows "final_score (scoring_logic (s\<lparr>wallet_age_days := n\<rparr>))
           \<le> final_score (scoring_logic (s\<lparr>wallet_age_days := m\<rparr>))
   \<and> final_score (scoring_logic (s\<lparr>uniswap_tx_count := n\<rparr>))
           \<le> final_score (scoring_logic (s\<lparr>uniswap_tx_count := m\<rparr>))
   \<and> final_score (scoring_logic (s\<lparr>vote_count := n\<rparr>))
           \<le> final_score (scoring_logic (s\<lparr>vote_count := m\<rparr>))
   \<and> final_score (scoring_logic (s\<lparr>liquidation_count := m\<rparr>))
           \<le> final_score (scoring_logic (s\<lparr>liquidation_count := n\<rparr>))
   \<and> final_score (scoring_logic (s\<lparr>rug_pull_events := m\<rparr>))
           \<le> final_score (scoring_logic (s\<lparr>rug_pull_events := n\<rparr>))
   \<and> final_score (scoring_logic (s\<lparr>failed_tx_rate := r'\<rparr>))
           \<le> final_score (scoring_logic (s\<lparr>failed_tx_rate := r\<rparr>))"
proof -
  have d30: "n div 30 \<le> m div 30" and d10: "n div 10 \<le> m div 10"
    using assms(1) by (simp_all add: zdiv_mono1)
  have age: "base_score (scoring_logic (s\<lparr>wallet_age_days := n\<rparr>))
               \<le> base_score (scoring_logic (s\<lparr>wallet_age_days := m\<rparr>))"
    unfolding base_score_eq using d30 by simp
  have swaps: "base_score (scoring_logic (s\<lparr>uniswap_tx_count := n\<rparr>))
               \<le> base_score (scoring_logic (s\<lparr>uniswap_tx_count := m\<rparr>))"
    unfolding base_score_eq using d10 by simp
  have votes: "base_score (scoring_logic (s\<lparr>vote_count := n\<rparr>))
               \<le> base_score (scoring_logic (s\<lparr>vote_count := m\<rparr>))"
    unfolding base_score_eq using assms(1) by simp
  have liq: "base_score (scoring_logic (s\<lparr>liquidation_count := m\<rparr>))
               \<le> base_score (scoring_logic (s\<lparr>liquidation_count := n\<rparr>))"
    unfolding base_score_eq using assms(1) by simp
  have rug: "base_score (scoring_logic (s\<lparr>rug_pull_events := m\<rparr>))
               \<le> base_score (scoring_logic (s\<lparr>rug_pull_events := n\<rparr>))"
    unfolding base_score_eq using assms(1) by simp
  have rate: "base_score (scoring_logic (s\<lparr>failed_tx_rate := r'\<rparr>))
               \<le> base_score (scoring_logic (s\<lparr>failed_tx_rate := r\<rparr>))"
    unfolding base_score_eq using failed_tx_penalty_mono[OF assms(2)]
    by (simp split: if_splits)
  show ?thesis unfolding final_score_eq
    using clamp_mono[OF age] clamp_mono[OF swaps] clamp_mono[OF votes]
          clamp_mono[OF liq] clamp_mono[OF rug] clamp_mono[OF rate]
    by blast
qed

theorem score_monotone_witness:
  "final_score (scoring_logic
     (\<lparr>wallet_age_days = 0, tornado_interaction = False, failed_tx_count = 0,
       failed_tx_rate = 0, rug_pull_events = 0, uniswap_tx_count = 0,
       liquidation_count = 0, vote_count = 0\<rparr>\<lparr>wallet_age_days := 30\<rparr>))
     \<le> final_score (scoring_logic
     (\<lparr>wallet_age_days = 0, tornado_interaction = False, failed_tx_count = 0,
       failed_tx_rate = 0, rug_pull_events = 0, uniswap_tx_count = 0,
       liquidation_count = 0, vote_count = 0\<rparr>\<lparr>wallet_age_days := 90\<rparr>))
   \<and> final_score (scoring_logic
     (\<lparr>wallet_age_days = 0, tornado_interaction = False, failed_tx_count = 0,
       failed_tx_rate = 0, rug_pull_events = 0, uniswap_tx_count = 0,
       liquidation_count = 0, vote_count = 0\<rparr>\<lparr>failed_tx_rate := 50\<rparr>))
     \<le> final_score (scoring_logic
     (\<lparr>wallet_age_days = 0, tornado_interaction = False, failed_tx_count = 0,
       failed_tx_rate = 0, rug_pull_events = 0, uniswap_tx_count = 0,
       liquidation_count = 0, vote_count = 0\<rparr>\<lparr>failed_tx_rate := 10\<rparr>))"
  using score_monotone
    [of 30 90 10 50
        "\<lparr>wallet_age_days = 0, tornado_interaction = False, failed_tx_count = 0,
          failed_tx_rate = 0, rug_pull_events = 0, uniswap_tx_count = 0,
          liquidation_count = 0, vote_count = 0\<rparr>"]
  by simp

end
